theory Spec2Isabelle
  imports Main
begin

section \<open>Data model\<close>

text \<open>
  Python objects are mutable and shared by reference: a scope frame keeps a reference to
  its parent frame, and a write through a child is seen through every other reference to
  the parent. The model therefore keeps the \<open>Environment\<close> objects in an explicit store:
  a list of objects in allocation order, an object's address being its index.
  Keys are compared by the equality of the key type (object identity for plain objects
  such as \<open>Parameter\<close> instances); the examples name such objects by strings.
  The root frame's store is a \<open>WeakKeyDictionary\<close>: its keys are objects that can
  be weakly referenced, and the collection of entries whose key has died is not part of
  this model, in which every key stays alive.
\<close>

type_synonym addr = nat
type_synonym thread = nat

datatype pyval = PNone | PInt int | PStr string

datatype 'k error = KeyError 'k | TypeError | AttributeError | ValueError | UserError string

text \<open>\<open>class Environment\<close>: the fields \<open>_data\<close> and \<open>_parent\<close>.\<close>

record ('k, 'v) Environment =
  data :: "'k \<rightharpoonup> 'v"
  parent :: "addr option"

type_synonym ('k, 'v) heap = "('k, 'v) Environment list"

text \<open>
  The three mapping methods of \<open>Environment\<close> recurse along the \<open>_parent\<close>
  references. The recursion is through the store, so the functions are partial: the value
  \<open>None\<close> stands for a call that has no result (a reference to no object, or a parent
  chain that never ends). Raising \<open>KeyError\<close> is the result \<open>Inl (KeyError key)\<close>.
\<close>

partial_function (option) Environment_getitem ::
  "('k, 'v) heap \<Rightarrow> addr \<Rightarrow> 'k \<Rightarrow> ('k error + 'v) option" where
  "Environment_getitem h self key =
     (if self < length h then
        (case data (h ! self) key of
           Some v \<Rightarrow> Some (Inr v)
         | None \<Rightarrow>
            (case parent (h ! self) of
               Some p \<Rightarrow> Environment_getitem h p key
             | None \<Rightarrow> Some (Inl (KeyError key))))
      else None)"

text \<open>\<open>self._data[key] = value\<close>, as an update of the object at an address.\<close>

definition store_key :: "('k, 'v) heap \<Rightarrow> addr \<Rightarrow> 'k \<Rightarrow> 'v \<Rightarrow> ('k, 'v) heap" where
  "store_key h a key v = h[a := (h ! a)\<lparr>data := (data (h ! a))(key \<mapsto> v)\<rparr>]"

text \<open>\<open>del self._data[key]\<close>.\<close>

definition remove_key :: "('k, 'v) heap \<Rightarrow> addr \<Rightarrow> 'k \<Rightarrow> ('k, 'v) heap" where
  "remove_key h a key = h[a := (h ! a)\<lparr>data := (data (h ! a))(key := None)\<rparr>]"

partial_function (option) Environment_setitem ::
  "('k, 'v) heap \<Rightarrow> addr \<Rightarrow> 'k \<Rightarrow> 'v \<Rightarrow> ('k, 'v) heap option" where
  "Environment_setitem h self key v =
     (if self < length h then
        (if data (h ! self) key \<noteq> None \<or> parent (h ! self) = None
         then Some (store_key h self key v)
         else Environment_setitem h (the (parent (h ! self))) key v)
      else None)"

partial_function (option) Environment_delitem ::
  "('k, 'v) heap \<Rightarrow> addr \<Rightarrow> 'k \<Rightarrow> ('k error + ('k, 'v) heap) option" where
  "Environment_delitem h self key =
     (if self < length h then
        (if data (h ! self) key \<noteq> None then Some (Inr (remove_key h self key))
         else (case parent (h ! self) of
                 Some p \<Rightarrow> Environment_delitem h p key
               | None \<Rightarrow> Some (Inl (KeyError key))))
      else None)"

text \<open>
  The frames reachable from a frame along the parent references, nearest first, root
  last. It has a value exactly when the references end at a root.
\<close>

partial_function (option) chain :: "('k, 'v) heap \<Rightarrow> addr \<Rightarrow> addr list option" where
  "chain h a =
     (if a < length h then
        (case parent (h ! a) of
           None \<Rightarrow> Some [a]
         | Some p \<Rightarrow> Option.bind (chain h p) (\<lambda>c. Some (a # c)))
      else None)"

definition owns :: "('k, 'v) heap \<Rightarrow> 'k \<Rightarrow> addr \<Rightarrow> bool" where
  "owns h key b = (data (h ! b) key \<noteq> None)"

text \<open>The first frame of a chain that owns the key, if there is one.\<close>

definition owner :: "('k, 'v) heap \<Rightarrow> addr list \<Rightarrow> 'k \<Rightarrow> addr option" where
  "owner h c key = find (owns h key) c"

text \<open>
  The frame a see-through write lands on, in the words of the specification: the first
  frame of the chain that owns the key, or the root if none does.
\<close>

definition set_target :: "('k, 'v) heap \<Rightarrow> addr list \<Rightarrow> 'k \<Rightarrow> addr" where
  "set_target h c key = (case owner h c key of Some b \<Rightarrow> b | None \<Rightarrow> last c)"


section \<open>The context-local head and the proxy\<close>

text \<open>
  \<open>_context_local = threading.local()\<close>: an object whose attributes have one value per
  thread; an attribute assigned in one thread is unset in every other thread, and reading
  an unset attribute raises \<open>AttributeError\<close>. The model keeps, for each thread, the
  address held by its attribute \<open>dynamic_environment\<close>, if the thread has assigned one.
\<close>

record ('k, 'v) state =
  heap :: "('k, 'v) heap"
  dynamic_environment :: "thread \<rightharpoonup> addr"

text \<open>
  Importing the module in thread \<open>t0\<close> (lines 46 to 49) creates the root frame and
  assigns it to the attribute, in the importing thread.
\<close>

definition module_init :: "thread \<Rightarrow> ('k, 'v) state" where
  "module_init t0 = \<lparr>heap = [\<lparr>data = Map.empty, parent = None\<rparr>], dynamic_environment = [t0 \<mapsto> 0]\<rparr>"

text \<open>
  The methods of \<open>EnvironmentProxy\<close>, called by thread \<open>t\<close>. A result is the
  value returned or the exception raised, with the state after the call.
\<close>

definition EnvironmentProxy_getitem ::
  "thread \<Rightarrow> 'k \<Rightarrow> ('k, 'v) state \<Rightarrow> (('k error + 'v) \<times> ('k, 'v) state) option" where
  "EnvironmentProxy_getitem t key st =
     (case dynamic_environment st t of
        None \<Rightarrow> Some (Inl AttributeError, st)
      | Some e \<Rightarrow>
         (case Environment_getitem (heap st) e key of
            None \<Rightarrow> None
          | Some r \<Rightarrow> Some (r, st)))"

definition EnvironmentProxy_setitem ::
  "thread \<Rightarrow> 'k \<Rightarrow> 'v \<Rightarrow> ('k, 'v) state \<Rightarrow> (('k error + unit) \<times> ('k, 'v) state) option" where
  "EnvironmentProxy_setitem t key v st =
     (case dynamic_environment st t of
        None \<Rightarrow> Some (Inl AttributeError, st)
      | Some e \<Rightarrow>
         (case Environment_setitem (heap st) e key v of
            None \<Rightarrow> None
          | Some h' \<Rightarrow> Some (Inr (), st\<lparr>heap := h'\<rparr>)))"

definition EnvironmentProxy_delitem ::
  "thread \<Rightarrow> 'k \<Rightarrow> ('k, 'v) state \<Rightarrow> (('k error + unit) \<times> ('k, 'v) state) option" where
  "EnvironmentProxy_delitem t key st =
     (case dynamic_environment st t of
        None \<Rightarrow> Some (Inl AttributeError, st)
      | Some e \<Rightarrow>
         (case Environment_delitem (heap st) e key of
            None \<Rightarrow> None
          | Some (Inl err) \<Rightarrow> Some (Inl err, st)
          | Some (Inr h') \<Rightarrow> Some (Inr (), st\<lparr>heap := h'\<rparr>)))"

text \<open>
  How a block of code ends: it runs to its end, it returns from the enclosing function,
  or it raises.
\<close>

datatype 'k outcome = Completed | Returned pyval | Raised "'k error"

text \<open>
  \<open>EnvironmentProxy.create\<close> is a generator under \<open>contextlib.contextmanager\<close>:
  entering the \<open>with\<close> statement runs it to the \<open>yield\<close> (lines 84 to 86), and
  leaving the block on any path resumes it inside the \<open>try\<close>, so that the
  \<open>finally\<close> clause (line 90) runs and the block's outcome goes on to the caller.
  \<open>Environment(data, parent=oldenv)\<close> allocates the new frame at the next address.
  The code keeps the caller's dictionary itself as the store of the new frame
  (\<open>self._data = d\<close>); here the frame is given the dictionary's contents \<open>d\<close>.
  The two agree when the dictionary is held by no other frame and is not used by the
  caller afterwards, as with the dictionary display that \<open>parameterize\<close> builds and
  with those of the tests. A dictionary object that is the store of two frames is
  outside this model.
\<close>

definition create_enter ::
  "thread \<Rightarrow> ('k \<rightharpoonup> 'v) \<Rightarrow> ('k, 'v) state \<Rightarrow> 'k error + (addr \<times> ('k, 'v) state)" where
  "create_enter t d st =
     (case dynamic_environment st t of
        None \<Rightarrow> Inl AttributeError
      | Some oldenv \<Rightarrow>
          Inr (oldenv,
               st\<lparr>heap := heap st @ [\<lparr>data = d, parent = Some oldenv\<rparr>],
                  dynamic_environment := (dynamic_environment st)(t \<mapsto> length (heap st))\<rparr>))"

definition create_exit :: "thread \<Rightarrow> addr \<Rightarrow> ('k, 'v) state \<Rightarrow> ('k, 'v) state" where
  "create_exit t oldenv st = st\<lparr>dynamic_environment := (dynamic_environment st)(t \<mapsto> oldenv)\<rparr>"

definition EnvironmentProxy_create ::
  "thread \<Rightarrow> ('k \<rightharpoonup> 'v) \<Rightarrow> (('k, 'v) state \<Rightarrow> ('k outcome \<times> ('k, 'v) state) option) \<Rightarrow>
   ('k, 'v) state \<Rightarrow> ('k outcome \<times> ('k, 'v) state) option" where
  "EnvironmentProxy_create t d body st =
     (case create_enter t d st of
        Inl err \<Rightarrow> Some (Raised err, st)
      | Inr (oldenv, st1) \<Rightarrow>
         (case body st1 of
            None \<Rightarrow> None
          | Some (out, st2) \<Rightarrow> Some (out, create_exit t oldenv st2)))"

section \<open>Parameter\<close>

text \<open>
  A \<open>Parameter\<close> object is its own key: \<open>ident\<close> is the identity of the object, and
  \<open>converter\<close> its field \<open>_converter\<close>. A converter is a function of the value that
  returns or raises; it does not touch the environment.
\<close>

record 'k Parameter =
  ident :: 'k
  converter :: "pyval \<Rightarrow> 'k error + pyval"

text \<open>The default converter, \<open>lambda x: x\<close>.\<close>

definition identity_converter :: "pyval \<Rightarrow> 'k error + pyval" where
  "identity_converter x = Inr x"

text \<open>
  \<open>Parameter.__init__\<close> on the new object \<open>self\<close>: the converter is called first,
  then the proxy is assigned to, then the field is set.
\<close>

definition Parameter_init ::
  "'k \<Rightarrow> pyval \<Rightarrow> (pyval \<Rightarrow> 'k error + pyval) \<Rightarrow> thread \<Rightarrow> ('k, pyval) state \<Rightarrow>
   (('k error + 'k Parameter) \<times> ('k, pyval) state) option" where
  "Parameter_init self dflt conv t st =
     (case conv dflt of
        Inl err \<Rightarrow> Some (Inl err, st)
      | Inr cv \<Rightarrow>
         (case EnvironmentProxy_setitem t self cv st of
            None \<Rightarrow> None
          | Some (Inl err, st') \<Rightarrow> Some (Inl err, st')
          | Some (Inr u, st') \<Rightarrow> Some (Inr \<lparr>ident = self, converter = conv\<rparr>, st')))"

definition Parameter_get ::
  "'k Parameter \<Rightarrow> thread \<Rightarrow> ('k, pyval) state \<Rightarrow>
   (('k error + pyval) \<times> ('k, pyval) state) option" where
  "Parameter_get p t st = EnvironmentProxy_getitem t (ident p) st"

text \<open>\<open>Parameter.set\<close> has no \<open>return\<close> statement: the call evaluates to \<open>None\<close>.\<close>

definition Parameter_set ::
  "'k Parameter \<Rightarrow> pyval \<Rightarrow> thread \<Rightarrow> ('k, pyval) state \<Rightarrow>
   (('k error + pyval) \<times> ('k, pyval) state) option" where
  "Parameter_set p v t st =
     (case converter p v of
        Inl err \<Rightarrow> Some (Inl err, st)
      | Inr cv \<Rightarrow>
         (case EnvironmentProxy_setitem t (ident p) cv st of
            None \<Rightarrow> None
          | Some (Inl err, st') \<Rightarrow> Some (Inl err, st')
          | Some (Inr u, st') \<Rightarrow> Some (Inr PNone, st')))"

text \<open>\<open>Parameter.__call__(self, *args)\<close>.\<close>

definition Parameter_call ::
  "'k Parameter \<Rightarrow> pyval list \<Rightarrow> thread \<Rightarrow> ('k, pyval) state \<Rightarrow>
   (('k error + pyval) \<times> ('k, pyval) state) option" where
  "Parameter_call p args t st =
     (if length args = 0 then Parameter_get p t st
      else if length args = 1 then Parameter_set p (args ! 0) t st
      else Some (Inl TypeError, st))"

text \<open>
  \<open>Parameter.parameterize\<close>: the dictionary \<open>{self: self._converter(value)}\<close> is built
  before the scope is opened; the block then runs inside \<open>create\<close>.
\<close>

definition Parameter_parameterize ::
  "'k Parameter \<Rightarrow> pyval \<Rightarrow> (('k, pyval) state \<Rightarrow> ('k outcome \<times> ('k, pyval) state) option) \<Rightarrow>
   thread \<Rightarrow> ('k, pyval) state \<Rightarrow> ('k outcome \<times> ('k, pyval) state) option" where
  "Parameter_parameterize p v body t st =
     (case converter p v of
        Inl err \<Rightarrow> Some (Raised err, st)
      | Inr cv \<Rightarrow> EnvironmentProxy_create t [ident p \<mapsto> cv] body st)"


section \<open>Code enclosed in a scope\<close>

text \<open>
  The code that runs inside a \<open>with\<close> block is client code. To speak about every
  such block, it is given as a list of statements over the public operations: the proxy's
  mapping operations and \<open>create\<close>, the parameter's \<open>get\<close>, \<open>set\<close>, call and
  \<open>parameterize\<close>, \<open>raise\<close> and \<open>return\<close>. An expression statement drops the
  value and lets an exception go on. The statement \<open>With d body\<close> is a \<open>with\<close>
  statement on \<open>create\<close> of a dictionary display with the contents \<open>d\<close>.
\<close>

datatype 'k stmt =
    Get 'k
  | Set 'k pyval
  | Del 'k
  | With "'k \<rightharpoonup> pyval" "'k stmt list"
  | PGet "'k Parameter"
  | PSet "'k Parameter" pyval
  | PCall "'k Parameter" "pyval list"
  | PWith "'k Parameter" pyval "'k stmt list"
  | Raise "'k error"
  | Return pyval

definition expr_stmt :: "(('k error + 'r) \<times> 's) option \<Rightarrow> ('k outcome \<times> 's) option" where
  "expr_stmt r =
     (case r of
        None \<Rightarrow> None
      | Some (Inl err, s) \<Rightarrow> Some (Raised err, s)
      | Some (Inr x, s) \<Rightarrow> Some (Completed, s))"

fun exec :: "thread \<Rightarrow> 'k stmt \<Rightarrow> ('k, pyval) state \<Rightarrow> ('k outcome \<times> ('k, pyval) state) option"
  and exec_block ::
    "thread \<Rightarrow> 'k stmt list \<Rightarrow> ('k, pyval) state \<Rightarrow> ('k outcome \<times> ('k, pyval) state) option"
  where
  "exec t (Get k) st = expr_stmt (EnvironmentProxy_getitem t k st)"
| "exec t (Set k v) st = expr_stmt (EnvironmentProxy_setitem t k v st)"
| "exec t (Del k) st = expr_stmt (EnvironmentProxy_delitem t k st)"
| "exec t (With d body) st = EnvironmentProxy_create t d (exec_block t body) st"
| "exec t (PGet p) st = expr_stmt (Parameter_get p t st)"
| "exec t (PSet p v) st = expr_stmt (Parameter_set p v t st)"
| "exec t (PCall p args) st = expr_stmt (Parameter_call p args t st)"
| "exec t (PWith p v body) st = Parameter_parameterize p v (exec_block t body) t st"
| "exec t (Raise err) st = Some (Raised err, st)"
| "exec t (Return v) st = Some (Returned v, st)"
| "exec_block t [] st = Some (Completed, st)"
| "exec_block t (s # ss) st =
     (case exec t s st of
        None \<Rightarrow> None
      | Some (Completed, st') \<Rightarrow> exec_block t ss st'
      | Some (out, st') \<Rightarrow> Some (out, st'))"

section \<open>A converter for the examples\<close>

text \<open>
  Python's built-in \<open>int\<close> used as a converter, on the arguments the examples give it:
  an \<open>int\<close> is returned as it is, a string of decimal digits with an optional sign is
  read as a number, \<open>None\<close> raises \<open>TypeError\<close>. The other string forms that
  \<open>int\<close> reads (surrounding whitespace, underscores) are outside this model, which
  answers \<open>ValueError\<close> for them.
\<close>

definition digit_val :: "char \<Rightarrow> nat option" where
  "digit_val c =
     (let n = (of_char c :: nat) in if 48 \<le> n \<and> n \<le> 57 then Some (n - 48) else None)"

fun parse_digits :: "nat \<Rightarrow> string \<Rightarrow> nat option" where
  "parse_digits acc [] = Some acc"
| "parse_digits acc (c # cs) =
     (case digit_val c of None \<Rightarrow> None | Some d \<Rightarrow> parse_digits (10 * acc + d) cs)"

definition parse_int :: "string \<Rightarrow> int option" where
  "parse_int s =
     (case s of
        [] \<Rightarrow> None
      | c # cs \<Rightarrow>
         (if c = CHR ''-'' then (if cs = [] then None else map_option (\<lambda>n. - int n) (parse_digits 0 cs))
          else if c = CHR ''+'' then (if cs = [] then None else map_option int (parse_digits 0 cs))
          else map_option int (parse_digits 0 s)))"

definition py_int :: "pyval \<Rightarrow> 'k error + pyval" where
  "py_int x =
     (case x of
        PNone \<Rightarrow> Inl TypeError
      | PInt n \<Rightarrow> Inr (PInt n)
      | PStr s \<Rightarrow> (case parse_int s of None \<Rightarrow> Inl ValueError | Some n \<Rightarrow> Inr (PInt n)))"

section \<open>Well-formed states\<close>

text \<open>
  \<open>Environment.__init__\<close> is given a parent that exists already, and no method
  assigns \<open>_parent\<close> afterwards: the parent of a frame is older than the frame. A
  state is well formed for a thread when this holds of every frame and the thread has a
  head among the frames.
\<close>

definition wf_state :: "thread \<Rightarrow> ('k, 'v) state \<Rightarrow> bool" where
  "wf_state t st \<longleftrightarrow>
     (\<forall>b<length (heap st). \<forall>q. parent (heap st ! b) = Some q \<longrightarrow> q < b)
   \<and> (\<exists>e. dynamic_environment st t = Some e \<and> e < length (heap st))"

text \<open>
  A step from \<open>st\<close> has a result, in a well-formed state with the same head and all
  the frames there were.
\<close>

definition run_ok ::
  "thread \<Rightarrow> ('k, 'v) state \<Rightarrow> ('k outcome \<times> ('k, 'v) state) option \<Rightarrow> bool" where
  "run_ok t st r \<longleftrightarrow>
     (\<exists>out st'. r = Some (out, st') \<and> wf_state t st'
        \<and> dynamic_environment st' t = dynamic_environment st t
        \<and> length (heap st) \<le> length (heap st'))"

section \<open>Example states\<close>

text \<open>
  The outer environment of the see-through example: thread 0, whose root binds \<open>k\<close>
  to 43; and the same thread inside an unrelated scope that binds only \<open>other\<close>.
\<close>

definition st_root :: "(string, pyval) state" where
  "st_root = \<lparr>heap = [\<lparr>data = [''k'' \<mapsto> PInt 43], parent = None\<rparr>],
              dynamic_environment = [0 \<mapsto> 0]\<rparr>"

definition st_nested :: "(string, pyval) state" where
  "st_nested = \<lparr>heap = [\<lparr>data = [''k'' \<mapsto> PInt 43], parent = None\<rparr>,
                        \<lparr>data = [''other'' \<mapsto> PInt 1], parent = Some 0\<rparr>],
                dynamic_environment = [0 \<mapsto> 1]\<rparr>"

declare Environment_getitem.simps [code] Environment_setitem.simps [code]
  Environment_delitem.simps [code] chain.simps [code]


section \<open>Chains of frames\<close>

lemma chain_Some_cases:
  "chain h a = Some c \<Longrightarrow>
     a < length h \<and> ((parent (h ! a) = None \<and> c = [a]) \<or>
       (\<exists>p c'. parent (h ! a) = Some p \<and> chain h p = Some c' \<and> c = a # c'))"
  by (subst (asm) chain.simps) (auto split: if_splits option.splits simp: bind_eq_Some_conv)

lemma chain_not_Nil: "chain h a = Some c \<Longrightarrow> c \<noteq> []"
  by (auto dest: chain_Some_cases)

lemma chain_hd: "chain h a = Some c \<Longrightarrow> hd c = a"
  by (auto dest: chain_Some_cases)

lemma chain_bound: "chain h a = Some c \<Longrightarrow> \<forall>b\<in>set c. b < length h"
proof (induction c arbitrary: a)
  case Nil
  then show ?case by simp
next
  case (Cons x xs)
  from chain_Some_cases[OF Cons.prems] show ?case
    using Cons.IH by auto
qed

lemma chain_last_root: "chain h a = Some c \<Longrightarrow> parent (h ! last c) = None"
proof (induction c arbitrary: a)
  case Nil
  then show ?case by (auto dest: chain_not_Nil)
next
  case (Cons x xs)
  from chain_Some_cases[OF Cons.prems] show ?case
    using Cons.IH by (auto dest: chain_not_Nil)
qed

lemma chain_inner_parent:
  "chain h a = Some c \<Longrightarrow> \<forall>b\<in>set (butlast c). parent (h ! b) \<noteq> None"
proof (induction c arbitrary: a)
  case Nil
  then show ?case by simp
next
  case (Cons x xs)
  from chain_Some_cases[OF Cons.prems] show ?case
    using Cons.IH by (auto dest: chain_not_Nil)
qed

text \<open>The chain depends only on the parent references of its own frames.\<close>

lemma chain_cong:
  "chain h a = Some c \<Longrightarrow> \<forall>b\<in>set c. b < length h' \<and> parent (h' ! b) = parent (h ! b) \<Longrightarrow>
   chain h' a = Some c"
proof (induction c arbitrary: a)
  case Nil
  then show ?case by (auto dest: chain_not_Nil)
next
  case (Cons x xs)
  from chain_Some_cases[OF Cons.prems(1)] Cons.prems(2) show ?case
    by (subst chain.simps) (auto dest!: Cons.IH)
qed

lemma getitem_chain:
  "chain h a = Some c \<Longrightarrow> Environment_getitem h a key =
     Some (case owner h c key of Some b \<Rightarrow> Inr (the (data (h ! b) key)) | None \<Rightarrow> Inl (KeyError key))"
proof (induction c arbitrary: a)
  case Nil
  then show ?case by (auto dest: chain_not_Nil)
next
  case (Cons x xs)
  from chain_Some_cases[OF Cons.prems] show ?case
    by (subst Environment_getitem.simps)
       (auto split: option.splits simp: owner_def owns_def dest!: Cons.IH)
qed

lemma setitem_chain:
  "chain h a = Some c \<Longrightarrow>
   Environment_setitem h a key v = Some (store_key h (set_target h c key) key v)"
proof (induction c arbitrary: a)
  case Nil
  then show ?case by (auto dest: chain_not_Nil)
next
  case (Cons x xs)
  from chain_Some_cases[OF Cons.prems]
  consider (root) "a < length h" "parent (h ! a) = None" "x = a" "xs = []"
    | (inner) p where "a < length h" "parent (h ! a) = Some p" "chain h p = Some xs" "x = a"
    by auto
  then show ?case
  proof cases
    case root
    then show ?thesis
      by (subst Environment_setitem.simps) (simp add: set_target_def owner_def owns_def)
  next
    case inner
    have "xs \<noteq> []" using inner(3) by (rule chain_not_Nil)
    with inner Cons.IH[OF inner(3)] show ?thesis
      by (subst Environment_setitem.simps)
         (auto simp: set_target_def owner_def owns_def split: option.splits)
  qed
qed

lemma delitem_chain:
  "chain h a = Some c \<Longrightarrow> Environment_delitem h a key =
     Some (case owner h c key of Some b \<Rightarrow> Inr (remove_key h b key) | None \<Rightarrow> Inl (KeyError key))"
proof (induction c arbitrary: a)
  case Nil
  then show ?case by (auto dest: chain_not_Nil)
next
  case (Cons x xs)
  from chain_Some_cases[OF Cons.prems] show ?case
    by (subst Environment_delitem.simps)
       (auto split: option.splits simp: owner_def owns_def dest!: Cons.IH)
qed

lemma owner_None_iff: "owner h c key = None \<longleftrightarrow> (\<forall>b\<in>set c. data (h ! b) key = None)"
  by (auto simp: owner_def owns_def find_None_iff)

lemma owner_Some_D:
  "owner h c key = Some b \<Longrightarrow> b \<in> set c \<and> data (h ! b) key \<noteq> None"
  by (auto simp: owner_def owns_def find_Some_iff)

lemma set_target_in_chain: "c \<noteq> [] \<Longrightarrow> set_target h c key \<in> set c"
  by (auto simp: set_target_def dest: owner_Some_D split: option.splits)


section \<open>Writes, removals and allocation leave chains in place\<close>

lemma find_or_same: "find P xs = Some b \<Longrightarrow> find (\<lambda>y. P y \<or> y = b) xs = Some b"
  by (induction xs) (auto split: if_splits)

lemma find_none_or_same:
  "find P xs = None \<Longrightarrow> b \<in> set xs \<Longrightarrow> find (\<lambda>y. P y \<or> y = b) xs = Some b"
  by (induction xs) (auto split: if_splits)

lemma find_cong_set: "\<forall>y\<in>set xs. P y = Q y \<Longrightarrow> find P xs = find Q xs"
  by (induction xs) auto

lemma length_store_key [simp]: "length (store_key h b key v) = length h"
  by (simp add: store_key_def)

lemma length_remove_key [simp]: "length (remove_key h b key) = length h"
  by (simp add: remove_key_def)

lemma parent_store_key [simp]: "parent (store_key h b key v ! y) = parent (h ! y)"
  by (cases "b < length h"; cases "y = b") (simp_all add: store_key_def list_update_beyond)

lemma parent_remove_key [simp]: "parent (remove_key h b key ! y) = parent (h ! y)"
  by (cases "b < length h"; cases "y = b") (simp_all add: remove_key_def list_update_beyond)

lemma data_store_key:
  "b < length h \<Longrightarrow>
   data (store_key h b key v ! y) k' = (if y = b \<and> k' = key then Some v else data (h ! y) k')"
  by (cases "y = b") (simp_all add: store_key_def)

lemma data_remove_key:
  "b < length h \<Longrightarrow>
   data (remove_key h b key ! y) k' = (if y = b \<and> k' = key then None else data (h ! y) k')"
  by (cases "y = b") (simp_all add: remove_key_def)

lemma chain_store_key: "chain h a = Some c \<Longrightarrow> chain (store_key h b key v) a = Some c"
  using chain_cong[of h a c "store_key h b key v"] chain_bound[of h a c] by simp

lemma chain_remove_key: "chain h a = Some c \<Longrightarrow> chain (remove_key h b key) a = Some c"
  using chain_cong[of h a c "remove_key h b key"] chain_bound[of h a c] by simp

lemma chain_append: "chain h a = Some c \<Longrightarrow> chain (h @ hs) a = Some c"
  using chain_cong[of h a c "h @ hs"] chain_bound[of h a c] by (fastforce simp: nth_append)

lemma set_target_bound: "chain h a = Some c \<Longrightarrow> set_target h c key < length h"
proof -
  assume c: "chain h a = Some c"
  have "set_target h c key \<in> set c"
    using chain_not_Nil[OF c] by (rule set_target_in_chain)
  with chain_bound[OF c] show ?thesis by simp
qed

lemma owner_store_key_same:
  assumes "chain h a = Some c"
  shows "owner (store_key h (set_target h c key) key v) c key = Some (set_target h c key)"
proof -
  let ?b = "set_target h c key"
  have b: "?b < length h" using assms by (rule set_target_bound)
  have "\<forall>y\<in>set c. owns (store_key h ?b key v) key y = (owns h key y \<or> y = ?b)"
    using b by (auto simp: owns_def data_store_key)
  then have eq: "owner (store_key h ?b key v) c key = find (\<lambda>y. owns h key y \<or> y = ?b) c"
    unfolding owner_def by (rule find_cong_set)
  show ?thesis
  proof (cases "owner h c key")
    case None
    then have "?b = last c" by (simp add: set_target_def)
    moreover have "last c \<in> set c" using assms by (auto dest: chain_not_Nil)
    ultimately show ?thesis using None eq find_none_or_same[of "owns h key" c ?b]
      by (simp add: owner_def)
  next
    case (Some b')
    then have "?b = b'" by (simp add: set_target_def)
    with Some eq find_or_same[of "owns h key" c b'] show ?thesis
      by (simp add: owner_def)
  qed
qed

text \<open>A lookup after a write along the same chain returns the value written.\<close>

lemma getitem_after_setitem:
  assumes "chain h a = Some c" and "Environment_setitem h a key v = Some h'"
  shows "Environment_getitem h' a key = Some (Inr v)"
proof -
  let ?b = "set_target h c key"
  have h': "h' = store_key h ?b key v" using assms by (simp add: setitem_chain)
  have b: "?b < length h" using assms(1) by (rule set_target_bound)
  have c': "chain h' a = Some c" unfolding h' using assms(1) by (rule chain_store_key)
  have o: "owner h' c key = Some ?b" unfolding h' using assms(1) by (rule owner_store_key_same)
  have d: "data (h' ! ?b) key = Some v" unfolding h' using b by (simp add: data_store_key)
  show ?thesis unfolding getitem_chain[OF c'] o using d by simp
qed

lemma owner_append:
  "\<forall>b\<in>set c. b < length h \<Longrightarrow> owner (h @ hs) c key = owner h c key"
  unfolding owner_def by (rule find_cong_set) (simp add: owns_def nth_append)

lemma store_key_append:
  "b < length h \<Longrightarrow> store_key (h @ hs) b key v = store_key h b key v @ hs"
  by (simp add: store_key_def nth_append list_update_append1)

lemma remove_key_append:
  "b < length h \<Longrightarrow> remove_key (h @ hs) b key = remove_key h b key @ hs"
  by (simp add: remove_key_def nth_append list_update_append1)

text \<open>The chain of a frame just allocated on top of a chain.\<close>

lemma chain_new_frame:
  "chain h a = Some c \<Longrightarrow>
   chain (h @ [\<lparr>data = d, parent = Some a\<rparr>]) (length h) = Some (length h # c)"
proof -
  assume c: "chain h a = Some c"
  have "chain (h @ [\<lparr>data = d, parent = Some a\<rparr>]) a = Some c"
    using c by (rule chain_append)
  then show ?thesis by (subst chain.simps) simp
qed

lemma set_target_append:
  assumes "chain h a = Some c"
  shows "set_target (h @ hs) c key = set_target h c key"
  using chain_bound[OF assms] by (simp add: set_target_def owner_append)

lemma getitem_append:
  assumes "chain h a = Some c"
  shows "Environment_getitem (h @ hs) a key = Environment_getitem h a key"
proof -
  have b: "\<forall>b\<in>set c. b < length h" using assms by (rule chain_bound)
  have "\<And>b. owner h c key = Some b \<Longrightarrow> b < length h"
    using b by (auto dest: owner_Some_D)
  then show ?thesis
    unfolding getitem_chain[OF assms] getitem_chain[OF chain_append[OF assms]] owner_append[OF b]
    by (auto split: option.splits simp: nth_append)
qed

lemma setitem_append:
  assumes "chain h a = Some c"
  shows "Environment_setitem (h @ hs) a key v =
           Some (store_key h (set_target h c key) key v @ hs)"
  unfolding setitem_chain[OF chain_append[OF assms]] set_target_append[OF assms]
  using set_target_bound[OF assms] by (simp add: store_key_append)

lemma delitem_append:
  assumes "chain h a = Some c"
  shows "Environment_delitem (h @ hs) a key =
           Some (case owner h c key of
                   Some b \<Rightarrow> Inr (remove_key h b key @ hs)
                 | None \<Rightarrow> Inl (KeyError key))"
proof -
  have b: "\<forall>b\<in>set c. b < length h" using assms by (rule chain_bound)
  have "\<And>b. owner h c key = Some b \<Longrightarrow> b < length h"
    using b by (auto dest: owner_Some_D)
  then show ?thesis
    unfolding delitem_chain[OF chain_append[OF assms]] owner_append[OF b]
    by (auto split: option.splits simp: remove_key_append)
qed

lemma store_key_new_frame:
  "store_key (h @ [fr]) (length h) key v = h @ [fr\<lparr>data := (data fr)(key \<mapsto> v)\<rparr>]"
  by (simp add: store_key_def)

lemma getitem_own:
  "a < length h \<Longrightarrow> data (h ! a) key = Some v \<Longrightarrow> Environment_getitem h a key = Some (Inr v)"
  by (subst Environment_getitem.simps) simp

section \<open>The example states have chains\<close>

lemma chain_st_nested: "chain (heap st_nested) 1 = Some [1, 0]"
  by (simp add: st_nested_def chain.simps)

lemma chain_st_root: "chain (heap st_root) 0 = Some [0]"
  by (simp add: st_root_def chain.simps)

lemma chain_module_init: "chain (heap (module_init t0)) 0 = Some [0]"
  by (simp add: module_init_def chain.simps)

lemma getitem_module_init:
  "EnvironmentProxy_getitem 0 ''k'' (module_init 0 :: (string, pyval) state) =
     Some (Inl (KeyError ''k''), module_init 0)"
  by (simp add: EnvironmentProxy_getitem_def module_init_def Environment_getitem.simps)

lemma proxy_setitem_chain:
  assumes "dynamic_environment st t = Some a" and "chain (heap st) a = Some c"
  shows "EnvironmentProxy_setitem t key v st =
           Some (Inr (), st\<lparr>heap := store_key (heap st) (set_target (heap st) c key) key v\<rparr>)"
  using assms(1) by (simp add: EnvironmentProxy_setitem_def setitem_chain[OF assms(2)])

lemma proxy_getitem_after_store:
  assumes "dynamic_environment st t = Some a" and "chain (heap st) a = Some c"
  shows "EnvironmentProxy_getitem t key
           (st\<lparr>heap := store_key (heap st) (set_target (heap st) c key) key v\<rparr>) =
         Some (Inr v, st\<lparr>heap := store_key (heap st) (set_target (heap st) c key) key v\<rparr>)"
proof -
  have "Environment_getitem (store_key (heap st) (set_target (heap st) c key) key v) a key = Some (Inr v)"
    using assms(2) setitem_chain[OF assms(2)] by (rule getitem_after_setitem)
  then show ?thesis using assms(1) by (simp add: EnvironmentProxy_getitem_def)
qed

lemma py_int_examples:
  "(py_int (PInt 42) :: string error + pyval) = Inr (PInt 42)"
  "(py_int (PStr ''42'') :: string error + pyval) = Inr (PInt 42)"
  by (simp_all add: py_int_def parse_int_def digit_val_def)

lemma head_module_init: "dynamic_environment (module_init t0) t0 = Some 0"
  by (simp add: module_init_def)

section \<open>Lookup\<close>

text \<open>
  C4. For a frame whose parent references end at a root (an environment chain), and every
  key: \<open>get\<close> returns the value of the frame's own store if the key is there; if not,
  it is the parent's \<open>get\<close> when there is a parent, and \<open>KeyError\<close> (the
  specification's UnboundKey) when there is none. Over the whole chain, \<open>get\<close> raises
  \<open>KeyError\<close> exactly when no frame of the chain binds the key, at the frame and
  through the proxy of the thread whose head the frame is: no default is returned.
\<close>

theorem getitem_precedence:
  assumes "dynamic_environment st t = Some a" and "chain (heap st) a = Some c"
  shows "Environment_getitem (heap st) a key =
           (case data (heap st ! a) key of
              Some v \<Rightarrow> Some (Inr v)
            | None \<Rightarrow> (case parent (heap st ! a) of
                         Some p \<Rightarrow> Environment_getitem (heap st) p key
                       | None \<Rightarrow> Some (Inl (KeyError key))))
       \<and> (Environment_getitem (heap st) a key = Some (Inl (KeyError key)) \<longleftrightarrow>
            (\<forall>b\<in>set c. data (heap st ! b) key = None))
       \<and> (EnvironmentProxy_getitem t key st = Some (Inl (KeyError key), st) \<longleftrightarrow>
            (\<forall>b\<in>set c. data (heap st ! b) key = None))"
proof -
  from chain_Some_cases[OF assms(2)] have "a < length (heap st)" by simp
  then have local: "Environment_getitem (heap st) a key =
           (case data (heap st ! a) key of
              Some v \<Rightarrow> Some (Inr v)
            | None \<Rightarrow> (case parent (heap st ! a) of
                         Some p \<Rightarrow> Environment_getitem (heap st) p key
                       | None \<Rightarrow> Some (Inl (KeyError key))))"
    by (subst Environment_getitem.simps) simp
  have whole: "Environment_getitem (heap st) a key = Some (Inl (KeyError key)) \<longleftrightarrow>
           (\<forall>b\<in>set c. data (heap st ! b) key = None)"
    by (auto simp: getitem_chain[OF assms(2)] owner_None_iff[symmetric] split: option.splits)
  have "EnvironmentProxy_getitem t key st = Some (Inl (KeyError key), st) \<longleftrightarrow>
          Environment_getitem (heap st) a key = Some (Inl (KeyError key))"
    using assms(1) by (auto simp: EnvironmentProxy_getitem_def split: option.splits)
  with local whole show ?thesis by simp
qed

theorem getitem_precedence_witness:
  "dynamic_environment st_nested 0 = Some 1 \<and> chain (heap st_nested) 1 = Some [1, 0]
   \<and> EnvironmentProxy_getitem 0 ''absent'' st_nested = Some (Inl (KeyError ''absent''), st_nested)
   \<and> Environment_getitem (heap st_nested) 1 ''k'' = Environment_getitem (heap st_nested) 0 ''k''
   \<and> Environment_getitem (heap st_nested) 1 ''other'' = Some (Inr (PInt 1))"
proof -
  have hd: "dynamic_environment st_nested 0 = Some 1" by (simp add: st_nested_def)
  note g = getitem_precedence[OF hd chain_st_nested]
  have "\<forall>b\<in>set [1, 0::nat]. data (heap st_nested ! b) ''absent'' = None"
    by (simp add: st_nested_def)
  with g[of "''absent''"] have 1: "EnvironmentProxy_getitem 0 ''absent'' st_nested = Some (Inl (KeyError ''absent''), st_nested)"
    by blast
  have 2: "Environment_getitem (heap st_nested) 1 ''k'' = Environment_getitem (heap st_nested) 0 ''k''"
    using g[of "''k''"] by (simp add: st_nested_def)
  have 3: "Environment_getitem (heap st_nested) 1 ''other'' = Some (Inr (PInt 1))"
    using g[of "''other''"] by (simp add: st_nested_def)
  from hd chain_st_nested 1 2 3 show ?thesis by simp
qed


section \<open>Assignment\<close>

text \<open>
  C1. For a frame whose parent references end at a root, and every key and value:
  \<open>set\<close> writes into the frame's own store if the key is already there or the frame
  has no parent, and is the parent's \<open>set\<close> otherwise. Over the whole chain the write
  lands on the first frame that owns the key, or on the root if none does, and on no
  other frame. In particular, when thread \<open>t\<close> opens a scope whose bindings \<open>d\<close>
  do not bind \<open>key\<close>, assigns \<open>key\<close> inside it and leaves it, the head is the
  outer frame again and \<open>get\<close> there returns the value assigned.
\<close>

theorem setitem_see_through:
  assumes "dynamic_environment st t = Some a" and "chain (heap st) a = Some c"
  shows "Environment_setitem (heap st) a key v =
           (if data (heap st ! a) key \<noteq> None \<or> parent (heap st ! a) = None
            then Some (store_key (heap st) a key v)
            else Environment_setitem (heap st) (the (parent (heap st ! a))) key v)
       \<and> Environment_setitem (heap st) a key v =
           Some (store_key (heap st) (set_target (heap st) c key) key v)
       \<and> set_target (heap st) c key \<in> set c
       \<and> (owner (heap st) c key = None \<longrightarrow> parent (heap st ! set_target (heap st) c key) = None)
       \<and> EnvironmentProxy_setitem t key v st =
           Some (Inr (), st\<lparr>heap := store_key (heap st) (set_target (heap st) c key) key v\<rparr>)
       \<and> (d key = None \<longrightarrow>
            (\<exists>st'. exec t (With d [Set key v]) st = Some (Completed, st')
                 \<and> dynamic_environment st' t = Some a
                 \<and> EnvironmentProxy_getitem t key st' = Some (Inr v, st')))"
proof -
  let ?h = "heap st"
  let ?b = "set_target ?h c key"
  from chain_Some_cases[OF assms(2)] have a: "a < length ?h" by simp
  then have local: "Environment_setitem ?h a key v =
           (if data (?h ! a) key \<noteq> None \<or> parent (?h ! a) = None
            then Some (store_key ?h a key v)
            else Environment_setitem ?h (the (parent (?h ! a))) key v)"
    by (subst Environment_setitem.simps) simp
  have whole: "Environment_setitem ?h a key v = Some (store_key ?h ?b key v)"
    using assms(2) by (rule setitem_chain)
  have mem: "?b \<in> set c" using chain_not_Nil[OF assms(2)] by (rule set_target_in_chain)
  have root: "owner ?h c key = None \<longrightarrow> parent (?h ! ?b) = None"
    using chain_last_root[OF assms(2)] by (simp add: set_target_def)
  have proxy: "EnvironmentProxy_setitem t key v st = Some (Inr (), st\<lparr>heap := store_key ?h ?b key v\<rparr>)"
    using assms(1) whole by (simp add: EnvironmentProxy_setitem_def)
  have scen: "\<exists>st'. exec t (With d [Set key v]) st = Some (Completed, st')
                 \<and> dynamic_environment st' t = Some a
                 \<and> EnvironmentProxy_getitem t key st' = Some (Inr v, st')" if d: "d key = None"
  proof -
    let ?fr = "\<lparr>data = d, parent = Some a\<rparr>"
    let ?N = "length ?h"
    let ?st1 = "st\<lparr>heap := ?h @ [?fr], dynamic_environment := (dynamic_environment st)(t \<mapsto> ?N)\<rparr>"
    let ?h2 = "store_key ?h ?b key v @ [?fr]"
    let ?st' = "create_exit t a (?st1\<lparr>heap := ?h2\<rparr>)"
    have enter: "create_enter t d st = Inr (a, ?st1)"
      using assms(1) by (simp add: create_enter_def)
    have "Environment_setitem (?h @ [?fr]) ?N key v = Environment_setitem (?h @ [?fr]) a key v"
      using d by (subst Environment_setitem.simps) simp
    also have "\<dots> = Some ?h2" using assms(2) by (rule setitem_append)
    finally have "EnvironmentProxy_setitem t key v ?st1 = Some (Inr (), ?st1\<lparr>heap := ?h2\<rparr>)"
      by (simp add: EnvironmentProxy_setitem_def)
    then have blk: "exec_block t [Set key v] ?st1 = Some (Completed, ?st1\<lparr>heap := ?h2\<rparr>)"
      by (simp add: expr_stmt_def)
    have ex: "exec t (With d [Set key v]) st = Some (Completed, ?st')"
      by (simp add: EnvironmentProxy_create_def enter blk del: exec_block.simps)
    have hd: "dynamic_environment ?st' t = Some a" by (simp add: create_exit_def)
    have c2: "chain (store_key ?h ?b key v) a = Some c"
      using assms(2) by (rule chain_store_key)
    have "Environment_getitem ?h2 a key = Environment_getitem (store_key ?h ?b key v) a key"
      using c2 by (rule getitem_append)
    also have "\<dots> = Some (Inr v)" using assms(2) whole by (rule getitem_after_setitem)
    finally have "EnvironmentProxy_getitem t key ?st' = Some (Inr v, ?st')"
      by (simp add: EnvironmentProxy_getitem_def create_exit_def)
    with ex hd show ?thesis by blast
  qed
  from local whole mem root proxy scen show ?thesis by blast
qed


theorem setitem_see_through_witness:
  "dynamic_environment st_nested 0 = Some 1 \<and> chain (heap st_nested) 1 = Some [1, 0]
   \<and> Environment_setitem (heap st_nested) 1 ''k'' (PInt 99) =
       Some (store_key (heap st_nested) 0 ''k'' (PInt 99))
   \<and> Environment_setitem (heap st_nested) 1 ''other'' (PInt 2) =
       Some (store_key (heap st_nested) 1 ''other'' (PInt 2))
   \<and> Environment_setitem (heap st_nested) 1 ''new'' (PInt 3) =
       Some (store_key (heap st_nested) 0 ''new'' (PInt 3))
   \<and> [''other'' \<mapsto> PInt 1] ''k'' = None
   \<and> (\<exists>st'. exec 0 (With [''other'' \<mapsto> PInt 1] [Set ''k'' (PInt 99)]) st_root = Some (Completed, st')
          \<and> dynamic_environment st' 0 = Some 0
          \<and> EnvironmentProxy_getitem 0 ''k'' st' = Some (Inr (PInt 99), st'))"
proof -
  have hd1: "dynamic_environment st_nested 0 = Some 1" by (simp add: st_nested_def)
  have hd0: "dynamic_environment st_root 0 = Some 0" by (simp add: st_root_def)
  have t1: "set_target (heap st_nested) [1, 0] ''k'' = 0"
    by (simp add: set_target_def owner_def owns_def st_nested_def)
  have t2: "set_target (heap st_nested) [1, 0] ''other'' = 1"
    by (simp add: set_target_def owner_def owns_def st_nested_def)
  have t3: "set_target (heap st_nested) [1, 0] ''new'' = 0"
    by (simp add: set_target_def owner_def owns_def st_nested_def)
  have d: "[''other'' \<mapsto> PInt 1] ''k'' = None" by simp
  note n = setitem_see_through[OF hd1 chain_st_nested]
  note r = setitem_see_through[OF hd0 chain_st_root, where d = "[''other'' \<mapsto> PInt 1]"
    and key = "''k''" and v = "PInt 99"]
  from n[where key = "''k''" and v = "PInt 99"] have 1: "Environment_setitem (heap st_nested) 1 ''k'' (PInt 99) =
       Some (store_key (heap st_nested) 0 ''k'' (PInt 99))" unfolding t1 by blast
  from n[where key = "''other''" and v = "PInt 2"] have 2: "Environment_setitem (heap st_nested) 1 ''other'' (PInt 2) =
       Some (store_key (heap st_nested) 1 ''other'' (PInt 2))" unfolding t2 by blast
  from n[where key = "''new''" and v = "PInt 3"] have 3: "Environment_setitem (heap st_nested) 1 ''new'' (PInt 3) =
       Some (store_key (heap st_nested) 0 ''new'' (PInt 3))" unfolding t3 by blast
  from r d have 4: "\<exists>st'. exec 0 (With [''other'' \<mapsto> PInt 1] [Set ''k'' (PInt 99)]) st_root = Some (Completed, st')
          \<and> dynamic_environment st' 0 = Some 0
          \<and> EnvironmentProxy_getitem 0 ''k'' st' = Some (Inr (PInt 99), st')" by blast
  from hd1 chain_st_nested 1 2 3 d 4 show ?thesis by blast
qed


section \<open>Removal\<close>

text \<open>
  C5. For a frame whose parent references end at a root, and every key: \<open>delete\<close>
  removes the key from the frame's own store if it is there, is the parent's
  \<open>delete\<close> otherwise when there is a parent, and raises \<open>KeyError\<close> when there
  is none. Over the whole chain the removal happens in the first frame that owns the key,
  which is the frame a \<open>set\<close> of that key lands on, and \<open>KeyError\<close> is raised
  exactly when no frame of the chain binds the key. Consequently, when no frame other
  than the one \<open>set\<close> lands on binds the key, \<open>set\<close> followed by \<open>delete\<close>
  makes the next \<open>get\<close> raise \<open>KeyError\<close>.
\<close>

theorem delitem_precedence:
  assumes "dynamic_environment st t = Some a" and "chain (heap st) a = Some c"
  shows "Environment_delitem (heap st) a key =
           (if data (heap st ! a) key \<noteq> None then Some (Inr (remove_key (heap st) a key))
            else (case parent (heap st ! a) of
                    Some p \<Rightarrow> Environment_delitem (heap st) p key
                  | None \<Rightarrow> Some (Inl (KeyError key))))
       \<and> Environment_delitem (heap st) a key =
           Some (case owner (heap st) c key of
                   Some b \<Rightarrow> Inr (remove_key (heap st) b key)
                 | None \<Rightarrow> Inl (KeyError key))
       \<and> (Environment_delitem (heap st) a key = Some (Inl (KeyError key)) \<longleftrightarrow>
            (\<forall>b\<in>set c. data (heap st ! b) key = None))
       \<and> (EnvironmentProxy_delitem t key st = Some (Inl (KeyError key), st) \<longleftrightarrow>
            (\<forall>b\<in>set c. data (heap st ! b) key = None))
       \<and> ((\<forall>b\<in>set c. b \<noteq> set_target (heap st) c key \<longrightarrow> data (heap st ! b) key = None) \<longrightarrow>
            (\<exists>st1 st2. EnvironmentProxy_setitem t key v st = Some (Inr (), st1)
                 \<and> EnvironmentProxy_delitem t key st1 = Some (Inr (), st2)
                 \<and> EnvironmentProxy_getitem t key st2 = Some (Inl (KeyError key), st2)))"
proof -
  let ?h = "heap st"
  let ?b = "set_target ?h c key"
  from chain_Some_cases[OF assms(2)] have a: "a < length ?h" by simp
  then have local: "Environment_delitem ?h a key =
           (if data (?h ! a) key \<noteq> None then Some (Inr (remove_key ?h a key))
            else (case parent (?h ! a) of
                    Some p \<Rightarrow> Environment_delitem ?h p key
                  | None \<Rightarrow> Some (Inl (KeyError key))))"
    by (subst Environment_delitem.simps) simp
  note whole = delitem_chain[OF assms(2), of key]
  have absent: "Environment_delitem ?h a key = Some (Inl (KeyError key)) \<longleftrightarrow>
            (\<forall>b\<in>set c. data (?h ! b) key = None)"
    unfolding whole by (auto simp: owner_None_iff[symmetric] split: option.splits)
  have proxy: "EnvironmentProxy_delitem t key st = Some (Inl (KeyError key), st) \<longleftrightarrow>
            (\<forall>b\<in>set c. data (?h ! b) key = None)"
    unfolding absent[symmetric] using assms(1)
    by (auto simp: EnvironmentProxy_delitem_def split: option.splits sum.splits)
  have cons: "\<exists>st1 st2. EnvironmentProxy_setitem t key v st = Some (Inr (), st1)
                 \<and> EnvironmentProxy_delitem t key st1 = Some (Inr (), st2)
                 \<and> EnvironmentProxy_getitem t key st2 = Some (Inl (KeyError key), st2)"
    if others: "\<forall>b\<in>set c. b \<noteq> ?b \<longrightarrow> data (?h ! b) key = None"
  proof -
    let ?h1 = "store_key ?h ?b key v"
    let ?h2 = "remove_key ?h1 ?b key"
    have b: "?b < length ?h" using assms(2) by (rule set_target_bound)
    have s: "EnvironmentProxy_setitem t key v st = Some (Inr (), st\<lparr>heap := ?h1\<rparr>)"
      using assms(1) by (simp add: EnvironmentProxy_setitem_def setitem_chain[OF assms(2)])
    have c1: "chain ?h1 a = Some c" using assms(2) by (rule chain_store_key)
    have o1: "owner ?h1 c key = Some ?b" using assms(2) by (rule owner_store_key_same)
    have dl: "EnvironmentProxy_delitem t key (st\<lparr>heap := ?h1\<rparr>) = Some (Inr (), st\<lparr>heap := ?h2\<rparr>)"
      using assms(1) by (simp add: EnvironmentProxy_delitem_def delitem_chain[OF c1] o1)
    have c2: "chain ?h2 a = Some c" using c1 by (rule chain_remove_key)
    have "\<forall>y\<in>set c. data (?h2 ! y) key = None"
      using b others by (simp add: data_remove_key data_store_key)
    then have "owner ?h2 c key = None" by (simp add: owner_None_iff)
    then have "EnvironmentProxy_getitem t key (st\<lparr>heap := ?h2\<rparr>) =
                 Some (Inl (KeyError key), st\<lparr>heap := ?h2\<rparr>)"
      using assms(1) by (simp add: EnvironmentProxy_getitem_def getitem_chain[OF c2])
    with s dl show ?thesis by blast
  qed
  from local whole absent proxy cons show ?thesis by blast
qed

theorem delitem_precedence_witness:
  "dynamic_environment st_nested 0 = Some 1 \<and> chain (heap st_nested) 1 = Some [1, 0]
   \<and> Environment_delitem (heap st_nested) 1 ''k'' = Some (Inr (remove_key (heap st_nested) 0 ''k''))
   \<and> EnvironmentProxy_delitem 0 ''absent'' st_nested = Some (Inl (KeyError ''absent''), st_nested)
   \<and> (\<exists>st1 st2. EnvironmentProxy_setitem 0 ''new'' (PInt 5) st_nested = Some (Inr (), st1)
          \<and> EnvironmentProxy_delitem 0 ''new'' st1 = Some (Inr (), st2)
          \<and> EnvironmentProxy_getitem 0 ''new'' st2 = Some (Inl (KeyError ''new''), st2))"
proof -
  have hd1: "dynamic_environment st_nested 0 = Some 1" by (simp add: st_nested_def)
  note n = delitem_precedence[OF hd1 chain_st_nested]
  have o: "owner (heap st_nested) [1, 0] ''k'' = Some 0"
    by (simp add: owner_def owns_def st_nested_def)
  from n[where key = "''k''" and v = PNone]
  have "Environment_delitem (heap st_nested) 1 ''k'' =
      Some (case owner (heap st_nested) [1, 0] ''k'' of
              Some b \<Rightarrow> Inr (remove_key (heap st_nested) b ''k'')
            | None \<Rightarrow> Inl (KeyError ''k''))"
    by blast
  then have 1: "Environment_delitem (heap st_nested) 1 ''k'' =
      Some (Inr (remove_key (heap st_nested) 0 ''k''))"
    by (simp only: o option.case)
  have "\<forall>b\<in>set [1, 0::nat]. data (heap st_nested ! b) ''absent'' = None"
    by (simp add: st_nested_def)
  with n[where key = "''absent''" and v = PNone]
  have 2: "EnvironmentProxy_delitem 0 ''absent'' st_nested = Some (Inl (KeyError ''absent''), st_nested)"
    by blast
  have "\<forall>b\<in>set [1, 0::nat]. b \<noteq> set_target (heap st_nested) [1, 0] ''new'' \<longrightarrow>
          data (heap st_nested ! b) ''new'' = None"
    by (simp add: st_nested_def)
  with n[where key = "''new''" and v = "PInt 5"]
  have 3: "\<exists>st1 st2. EnvironmentProxy_setitem 0 ''new'' (PInt 5) st_nested = Some (Inr (), st1)
          \<and> EnvironmentProxy_delitem 0 ''new'' st1 = Some (Inr (), st2)
          \<and> EnvironmentProxy_getitem 0 ''new'' st2 = Some (Inl (KeyError ''new''), st2)"
    by blast
  from hd1 chain_st_nested 1 2 3 show ?thesis by blast
qed

section \<open>Scopes\<close>

text \<open>
  C2. Nested scope isolation. Thread \<open>t\<close> opens a scope seeded with \<open>k\<close> bound to
  \<open>v1\<close>: inside, \<open>get\<close> returns \<open>v1\<close>; after \<open>set\<close> of \<open>v2\<close>,
  \<open>get\<close> returns \<open>v2\<close>; after the scope is left, the head is the outer frame
  and \<open>get\<close> gives what it gave before the scope was opened. With an outer
  environment that does not bind \<open>k\<close> that result is \<open>KeyError\<close> both times: the
  binding of the scope's own frame does not leak out.
\<close>

theorem scope_isolation:
  assumes "dynamic_environment st t = Some a" and "chain (heap st) a = Some c"
    and "EnvironmentProxy_getitem t k st = Some (r, st)"
  shows "\<exists>st1 st2.
           create_enter t [k \<mapsto> v1] st = Inr (a, st1)
         \<and> EnvironmentProxy_getitem t k st1 = Some (Inr v1, st1)
         \<and> EnvironmentProxy_setitem t k v2 st1 = Some (Inr (), st2)
         \<and> EnvironmentProxy_getitem t k st2 = Some (Inr v2, st2)
         \<and> exec t (With [k \<mapsto> v1] [Get k, Set k v2, Get k]) st = Some (Completed, create_exit t a st2)
         \<and> dynamic_environment (create_exit t a st2) t = Some a
         \<and> EnvironmentProxy_getitem t k (create_exit t a st2) = Some (r, create_exit t a st2)"
proof -
  let ?h = "heap st"
  let ?N = "length ?h"
  let ?fr1 = "\<lparr>data = [k \<mapsto> v1], parent = Some a\<rparr>"
  let ?fr2 = "\<lparr>data = [k \<mapsto> v2], parent = Some a\<rparr>"
  let ?st1 = "st\<lparr>heap := ?h @ [?fr1], dynamic_environment := (dynamic_environment st)(t \<mapsto> ?N)\<rparr>"
  let ?st2 = "?st1\<lparr>heap := ?h @ [?fr2]\<rparr>"
  have enter: "create_enter t [k \<mapsto> v1] st = Inr (a, ?st1)"
    using assms(1) by (simp add: create_enter_def)
  have g1: "EnvironmentProxy_getitem t k ?st1 = Some (Inr v1, ?st1)"
    by (simp add: EnvironmentProxy_getitem_def getitem_own)
  have "Environment_setitem (?h @ [?fr1]) ?N k v2 = Some (store_key (?h @ [?fr1]) ?N k v2)"
    by (subst Environment_setitem.simps) simp
  then have s: "EnvironmentProxy_setitem t k v2 ?st1 = Some (Inr (), ?st2)"
    by (simp add: EnvironmentProxy_setitem_def store_key_new_frame)
  have g2: "EnvironmentProxy_getitem t k ?st2 = Some (Inr v2, ?st2)"
    by (simp add: EnvironmentProxy_getitem_def getitem_own)
  have blk: "exec_block t [Get k, Set k v2, Get k] ?st1 = Some (Completed, ?st2)"
    using g1 s g2 by (simp add: expr_stmt_def)
  have ex: "exec t (With [k \<mapsto> v1] [Get k, Set k v2, Get k]) st = Some (Completed, create_exit t a ?st2)"
    by (simp add: EnvironmentProxy_create_def enter blk del: exec_block.simps)
  have hd: "dynamic_environment (create_exit t a ?st2) t = Some a"
    by (simp add: create_exit_def)
  have "Environment_getitem ?h a k = Some r"
    using assms(1,3) by (auto simp: EnvironmentProxy_getitem_def split: option.splits)
  then have "Environment_getitem (?h @ [?fr2]) a k = Some r"
    by (simp add: getitem_append[OF assms(2)])
  then have g3: "EnvironmentProxy_getitem t k (create_exit t a ?st2) = Some (r, create_exit t a ?st2)"
    by (simp add: EnvironmentProxy_getitem_def create_exit_def)
  from enter g1 s g2 ex hd g3 show ?thesis by blast
qed

theorem scope_isolation_witness:
  "dynamic_environment (module_init 0 :: (string, pyval) state) 0 = Some 0
   \<and> chain (heap (module_init 0 :: (string, pyval) state)) 0 = Some [0]
   \<and> EnvironmentProxy_getitem 0 ''k'' (module_init 0 :: (string, pyval) state) =
       Some (Inl (KeyError ''k''), module_init 0)
   \<and> (\<exists>st1 st2.
           create_enter 0 [''k'' \<mapsto> PInt 42] (module_init 0) = Inr (0, st1)
         \<and> EnvironmentProxy_getitem 0 ''k'' st1 = Some (Inr (PInt 42), st1)
         \<and> EnvironmentProxy_setitem 0 ''k'' (PInt 43) st1 = Some (Inr (), st2)
         \<and> EnvironmentProxy_getitem 0 ''k'' st2 = Some (Inr (PInt 43), st2)
         \<and> exec 0 (With [''k'' \<mapsto> PInt 42] [Get ''k'', Set ''k'' (PInt 43), Get ''k'']) (module_init 0)
             = Some (Completed, create_exit 0 0 st2)
         \<and> EnvironmentProxy_getitem 0 ''k'' (create_exit 0 0 st2) =
             Some (Inl (KeyError ''k''), create_exit 0 0 st2))"
proof -
  have hd: "dynamic_environment (module_init 0 :: (string, pyval) state) 0 = Some 0"
    by (simp add: module_init_def)
  from scope_isolation[OF hd chain_module_init getitem_module_init, of "PInt 42" "PInt 43"]
  show ?thesis using hd chain_module_init[of 0] getitem_module_init by blast
qed


section \<open>Parameters\<close>

text \<open>
  C6. The converter is applied on every set, construction included. In a thread whose
  head has a chain: when the converter returns, \<open>Parameter(default, converter)\<close>
  stores \<open>converter(default)\<close> under the parameter's identity and \<open>get\<close> returns
  it, and \<open>set(value)\<close> stores \<open>converter(value)\<close> and \<open>get\<close> returns it;
  when the converter raises, the exception goes on and nothing is stored. The witness is
  the example of the specification: with \<open>int\<close> as converter, \<open>get\<close> is 42 after
  \<open>set('42')\<close>; with the default converter it is the string, which is not 42.
\<close>

theorem converter_applied:
  assumes "dynamic_environment st t = Some a" and "chain (heap st) a = Some c"
  shows "(\<forall>cd. conv dflt = Inr cd \<longrightarrow>
            Parameter_init self dflt conv t st =
              Some (Inr \<lparr>ident = self, converter = conv\<rparr>,
                    st\<lparr>heap := store_key (heap st) (set_target (heap st) c self) self cd\<rparr>)
          \<and> Parameter_get \<lparr>ident = self, converter = conv\<rparr> t
                (st\<lparr>heap := store_key (heap st) (set_target (heap st) c self) self cd\<rparr>) =
              Some (Inr cd, st\<lparr>heap := store_key (heap st) (set_target (heap st) c self) self cd\<rparr>))
       \<and> (\<forall>cv. converter p v = Inr cv \<longrightarrow>
            Parameter_set p v t st =
              Some (Inr PNone,
                    st\<lparr>heap := store_key (heap st) (set_target (heap st) c (ident p)) (ident p) cv\<rparr>)
          \<and> Parameter_get p t
                (st\<lparr>heap := store_key (heap st) (set_target (heap st) c (ident p)) (ident p) cv\<rparr>) =
              Some (Inr cv, st\<lparr>heap := store_key (heap st) (set_target (heap st) c (ident p)) (ident p) cv\<rparr>))
       \<and> (\<forall>err. conv dflt = Inl err \<longrightarrow> Parameter_init self dflt conv t st = Some (Inl err, st))
       \<and> (\<forall>err. converter p v = Inl err \<longrightarrow> Parameter_set p v t st = Some (Inl err, st))"
  using proxy_setitem_chain[OF assms] proxy_getitem_after_store[OF assms]
  by (simp add: Parameter_init_def Parameter_set_def Parameter_get_def)

theorem converter_applied_witness:
  "\<exists>st1 st2 st3 st4.
      Parameter_init ''p2'' (PInt 42) py_int 0 (module_init 0) =
        Some (Inr \<lparr>ident = ''p2'', converter = py_int\<rparr>, st1)
    \<and> Parameter_get \<lparr>ident = ''p2'', converter = py_int\<rparr> 0 st1 = Some (Inr (PInt 42), st1)
    \<and> Parameter_set \<lparr>ident = ''p2'', converter = py_int\<rparr> (PStr ''42'') 0 st1 = Some (Inr PNone, st2)
    \<and> Parameter_get \<lparr>ident = ''p2'', converter = py_int\<rparr> 0 st2 = Some (Inr (PInt 42), st2)
    \<and> Parameter_init ''p1'' (PInt 42) identity_converter 0 (module_init 0) =
        Some (Inr \<lparr>ident = ''p1'', converter = identity_converter\<rparr>, st3)
    \<and> Parameter_set \<lparr>ident = ''p1'', converter = identity_converter\<rparr> (PStr ''42'') 0 st3 =
        Some (Inr PNone, st4)
    \<and> Parameter_get \<lparr>ident = ''p1'', converter = identity_converter\<rparr> 0 st4 =
        Some (Inr (PStr ''42''), st4)
    \<and> PStr ''42'' \<noteq> PInt 42"
proof -
  let ?m = "module_init 0 :: (string, pyval) state"
  let ?P2 = "\<lparr>ident = ''p2'', converter = py_int\<rparr> :: string Parameter"
  let ?P1 = "\<lparr>ident = ''p1'', converter = identity_converter\<rparr> :: string Parameter"
  let ?st1 = "?m\<lparr>heap := store_key (heap ?m) (set_target (heap ?m) [0] ''p2'') ''p2'' (PInt 42)\<rparr>"
  let ?st2 = "?st1\<lparr>heap := store_key (heap ?st1) (set_target (heap ?st1) [0] ''p2'') ''p2'' (PInt 42)\<rparr>"
  let ?st3 = "?m\<lparr>heap := store_key (heap ?m) (set_target (heap ?m) [0] ''p1'') ''p1'' (PInt 42)\<rparr>"
  let ?st4 = "?st3\<lparr>heap := store_key (heap ?st3) (set_target (heap ?st3) [0] ''p1'') ''p1'' (PStr ''42'')\<rparr>"
  have hd1: "dynamic_environment ?st1 0 = Some 0" and hd3: "dynamic_environment ?st3 0 = Some 0"
    by (simp_all add: head_module_init)
  have c1: "chain (heap ?st1) 0 = Some [0]" and c3: "chain (heap ?st3) 0 = Some [0]"
    by (simp_all add: chain_store_key chain_module_init)
  have i2: "Parameter_init ''p2'' (PInt 42) py_int 0 ?m = Some (Inr ?P2, ?st1)
          \<and> Parameter_get ?P2 0 ?st1 = Some (Inr (PInt 42), ?st1)"
    using converter_applied[OF head_module_init chain_module_init,
        where conv = py_int and dflt = "PInt 42" and self = "''p2''"] py_int_examples(1)
    by blast
  have s2: "Parameter_set ?P2 (PStr ''42'') 0 ?st1 = Some (Inr PNone, ?st2)
          \<and> Parameter_get ?P2 0 ?st2 = Some (Inr (PInt 42), ?st2)"
    using converter_applied[OF hd1 c1, where p = ?P2 and v = "PStr ''42''"] py_int_examples(2)
    by simp
  have i1: "Parameter_init ''p1'' (PInt 42) identity_converter 0 ?m = Some (Inr ?P1, ?st3)"
    using converter_applied[OF head_module_init chain_module_init,
        where conv = identity_converter and dflt = "PInt 42" and self = "''p1''"]
    by (simp add: identity_converter_def)
  have s1: "Parameter_set ?P1 (PStr ''42'') 0 ?st3 = Some (Inr PNone, ?st4)
          \<and> Parameter_get ?P1 0 ?st4 = Some (Inr (PStr ''42''), ?st4)"
    using converter_applied[OF hd3 c3, where p = ?P1 and v = "PStr ''42''"]
    by (simp add: identity_converter_def)
  have "PStr ''42'' \<noteq> PInt 42" by simp
  with i2 s2 i1 s1 show ?thesis by blast
qed

text \<open>
  Construction inside an open scope, evaluated: thread 0 is inside a scope (its head,
  frame 1, has the root as parent) and constructs a parameter. The binding is written
  into the root frame; the frame of the open scope is left as it was.
\<close>

theorem init_lands_on_root_counterexample:
  "dynamic_environment st_nested 0 = Some 1
   \<and> parent (heap st_nested ! 1) = Some 0
   \<and> parent (heap st_nested ! 0) = None
   \<and> Parameter_init ''p'' (PInt 42) identity_converter 0 st_nested =
       Some (Inr \<lparr>ident = ''p'', converter = identity_converter\<rparr>,
             st_nested\<lparr>heap := [\<lparr>data = [''k'' \<mapsto> PInt 43, ''p'' \<mapsto> PInt 42], parent = None\<rparr>,
                               \<lparr>data = [''other'' \<mapsto> PInt 1], parent = Some 0\<rparr>]\<rparr>)"
  by (simp add: Parameter_init_def identity_converter_def EnvironmentProxy_setitem_def
        Environment_setitem.simps store_key_def st_nested_def)

text \<open>
  C7, amended. Construction binds \<open>converter(default)\<close> under the parameter's own
  identity through the assignment of the environment chain that is current in the
  constructing thread. The identity of a parameter under construction is bound in no
  frame, so the write sees through every open scope: the frame that receives the binding
  is the root of the current chain, and every other frame is unchanged.
\<close>

theorem init_lands_on_root:
  assumes "dynamic_environment st t = Some a" and "chain (heap st) a = Some c"
    and "\<forall>b\<in>set c. data (heap st ! b) self = None" and "conv dflt = Inr cd"
  shows "Parameter_init self dflt conv t st =
           Some (Inr \<lparr>ident = self, converter = conv\<rparr>,
                 st\<lparr>heap := store_key (heap st) (last c) self cd\<rparr>)
       \<and> last c \<in> set c
       \<and> parent (heap st ! last c) = None
       \<and> (\<forall>b. b \<noteq> last c \<longrightarrow> store_key (heap st) (last c) self cd ! b = heap st ! b)
       \<and> data (store_key (heap st) (last c) self cd ! last c) self = Some cd"
proof -
  have "owner (heap st) c self = None" using assms(3) by (simp add: owner_None_iff)
  then have t: "set_target (heap st) c self = last c" by (simp add: set_target_def)
  have init: "Parameter_init self dflt conv t st =
           Some (Inr \<lparr>ident = self, converter = conv\<rparr>,
                 st\<lparr>heap := store_key (heap st) (last c) self cd\<rparr>)"
    using proxy_setitem_chain[OF assms(1,2), of self cd] assms(4)
    by (simp add: Parameter_init_def t)
  have mem: "last c \<in> set c" using chain_not_Nil[OF assms(2)] by simp
  have root: "parent (heap st ! last c) = None" using assms(2) by (rule chain_last_root)
  have others: "\<forall>b. b \<noteq> last c \<longrightarrow> store_key (heap st) (last c) self cd ! b = heap st ! b"
    by (simp add: store_key_def)
  have "last c < length (heap st)" using chain_bound[OF assms(2)] mem by simp
  then have "data (store_key (heap st) (last c) self cd ! last c) self = Some cd"
    by (simp add: data_store_key)
  with init mem root others show ?thesis by blast
qed

theorem init_lands_on_root_witness:
  "dynamic_environment st_nested 0 = Some 1 \<and> chain (heap st_nested) 1 = Some [1, 0]
   \<and> identity_converter (PInt 42) = (Inr (PInt 42) :: string error + pyval)
   \<and> Parameter_init ''p'' (PInt 42) identity_converter 0 st_nested =
       Some (Inr \<lparr>ident = ''p'', converter = identity_converter\<rparr>,
             st_nested\<lparr>heap := store_key (heap st_nested) 0 ''p'' (PInt 42)\<rparr>)
   \<and> parent (heap st_nested ! 0) = None
   \<and> store_key (heap st_nested) 0 ''p'' (PInt 42) ! 1 = heap st_nested ! 1"
proof -
  have hd1: "dynamic_environment st_nested 0 = Some 1" by (simp add: st_nested_def)
  have fresh: "\<forall>b\<in>set [1, 0::nat]. data (heap st_nested ! b) ''p'' = None"
    by (simp add: st_nested_def)
  have conv: "identity_converter (PInt 42) = (Inr (PInt 42) :: string error + pyval)"
    by (simp add: identity_converter_def)
  from init_lands_on_root[where conv = identity_converter and dflt = "PInt 42" and cd = "PInt 42",
      OF hd1 chain_st_nested fresh conv] hd1 chain_st_nested conv
  show ?thesis by simp
qed

text \<open>
  C8. Call sugar: a call with no argument is \<open>get\<close>, with the same result; a call
  with one argument is \<open>set\<close> of that argument; a call with more than one argument
  raises \<open>TypeError\<close> (the specification's InvalidArity) and leaves the state as it
  was.
\<close>

theorem call_sugar:
  "Parameter_call p [] t st = Parameter_get p t st
   \<and> Parameter_call p [v] t st = Parameter_set p v t st
   \<and> (1 < length args \<longrightarrow> Parameter_call p args t st = Some (Inl TypeError, st))"
  by (simp add: Parameter_call_def)

theorem call_sugar_witness:
  "1 < length [PInt 1, PInt 2]
   \<and> Parameter_call \<lparr>ident = ''k'', converter = identity_converter\<rparr> [PInt 1, PInt 2] 0 st_root =
       Some (Inl TypeError, st_root)
   \<and> Parameter_call \<lparr>ident = ''k'', converter = identity_converter\<rparr> [] 0 st_root =
       Some (Inr (PInt 43), st_root)"
proof -
  have g: "Parameter_get \<lparr>ident = ''k'', converter = identity_converter\<rparr> 0 st_root =
       Some (Inr (PInt 43), st_root)"
    by (simp add: Parameter_get_def EnvironmentProxy_getitem_def Environment_getitem.simps st_root_def)
  have l: "1 < length [PInt 1, PInt 2]" by simp
  from call_sugar[of "\<lparr>ident = ''k'', converter = identity_converter\<rparr>" 0 st_root _ "[PInt 1, PInt 2]"] g l
  show ?thesis by simp
qed

text \<open>
  C10. Whenever \<open>Parameter.set\<close> returns, it returns \<open>None\<close>, and so does the call
  with one argument; and in a thread whose head has a chain, with a converter that
  returns, the call with one argument does return \<open>None\<close>, after the write.
\<close>

theorem set_returns_none:
  "(\<forall>r st'. Parameter_set p v t st = Some (Inr r, st') \<longrightarrow> r = PNone)
   \<and> (\<forall>r st'. Parameter_call p [v] t st = Some (Inr r, st') \<longrightarrow> r = PNone)
   \<and> (\<forall>a c cv. dynamic_environment st t = Some a \<and> chain (heap st) a = Some c \<and> converter p v = Inr cv \<longrightarrow>
         Parameter_call p [v] t st =
           Some (Inr PNone,
                 st\<lparr>heap := store_key (heap st) (set_target (heap st) c (ident p)) (ident p) cv\<rparr>))"
proof -
  have 1: "\<forall>r st'. Parameter_set p v t st = Some (Inr r, st') \<longrightarrow> r = PNone"
    by (auto simp: Parameter_set_def split: sum.splits option.splits)
  have 2: "Parameter_call p [v] t st = Parameter_set p v t st"
    by (simp add: Parameter_call_def)
  have 3: "\<forall>a c cv. dynamic_environment st t = Some a \<and> chain (heap st) a = Some c \<and> converter p v = Inr cv \<longrightarrow>
         Parameter_set p v t st =
           Some (Inr PNone,
                 st\<lparr>heap := store_key (heap st) (set_target (heap st) c (ident p)) (ident p) cv\<rparr>)"
    by (auto simp: Parameter_set_def proxy_setitem_chain)
  from 1 2 3 show ?thesis by simp
qed

theorem set_returns_none_witness:
  "dynamic_environment st_root 0 = Some 0 \<and> chain (heap st_root) 0 = Some [0]
   \<and> Parameter_call \<lparr>ident = ''k'', converter = identity_converter\<rparr> [PInt 50] 0 st_root =
       Some (Inr PNone, st_root\<lparr>heap := store_key (heap st_root) 0 ''k'' (PInt 50)\<rparr>)
   \<and> PNone \<noteq> PInt 50 \<and> PNone \<noteq> PInt 43"
proof -
  have hd0: "dynamic_environment st_root 0 = Some 0" by (simp add: st_root_def)
  have t: "set_target (heap st_root) [0] ''k'' = 0" by (simp add: set_target_def owner_def)
  have conv: "converter \<lparr>ident = ''k'', converter = identity_converter\<rparr> (PInt 50) =
      (Inr (PInt 50) :: string error + pyval)"
    by (simp add: identity_converter_def)
  note call = set_returns_none[of "\<lparr>ident = ''k'', converter = identity_converter\<rparr>" "PInt 50" 0 st_root,
      THEN conjunct2, THEN conjunct2, rule_format, of 0 "[0]" "PInt 50"]
  have "Parameter_call \<lparr>ident = ''k'', converter = identity_converter\<rparr> [PInt 50] 0 st_root =
       Some (Inr PNone, st_root\<lparr>heap := store_key (heap st_root) (set_target (heap st_root) [0] ''k'') ''k'' (PInt 50)\<rparr>)"
    using call[OF conjI[OF hd0 conjI[OF chain_st_root conv]]] by simp
  with hd0 chain_st_root t show ?thesis by simp
qed

section \<open>Threads\<close>

text \<open>
  C9, at a second thread. The module is imported and a parameter constructed in thread
  0, where \<open>get\<close> returns the default. In thread 1 the attribute
  \<open>dynamic_environment\<close> of the thread-local object was never assigned: \<open>get\<close>
  and \<open>set\<close> raise \<open>AttributeError\<close>, not \<open>KeyError\<close>, and no root frame is
  created for the thread.
\<close>

theorem other_thread_attribute_error:
  "Parameter_init ''p'' (PInt 42) identity_converter 0 (module_init 0) =
     Some (Inr \<lparr>ident = ''p'', converter = identity_converter\<rparr>,
           \<lparr>heap = [\<lparr>data = [''p'' \<mapsto> PInt 42], parent = None\<rparr>], dynamic_environment = [0 \<mapsto> 0]\<rparr>)
   \<and> Parameter_get \<lparr>ident = ''p'', converter = identity_converter\<rparr> 0
       \<lparr>heap = [\<lparr>data = [''p'' \<mapsto> PInt 42], parent = None\<rparr>], dynamic_environment = [0 \<mapsto> 0]\<rparr> =
     Some (Inr (PInt 42),
           \<lparr>heap = [\<lparr>data = [''p'' \<mapsto> PInt 42], parent = None\<rparr>], dynamic_environment = [0 \<mapsto> 0]\<rparr>)
   \<and> Parameter_get \<lparr>ident = ''p'', converter = identity_converter\<rparr> 1
       \<lparr>heap = [\<lparr>data = [''p'' \<mapsto> PInt 42], parent = None\<rparr>], dynamic_environment = [0 \<mapsto> 0]\<rparr> =
     Some (Inl AttributeError,
           \<lparr>heap = [\<lparr>data = [''p'' \<mapsto> PInt 42], parent = None\<rparr>], dynamic_environment = [0 \<mapsto> 0]\<rparr>)
   \<and> Parameter_set \<lparr>ident = ''p'', converter = identity_converter\<rparr> (PInt 7) 1
       \<lparr>heap = [\<lparr>data = [''p'' \<mapsto> PInt 42], parent = None\<rparr>], dynamic_environment = [0 \<mapsto> 0]\<rparr> =
     Some (Inl AttributeError,
           \<lparr>heap = [\<lparr>data = [''p'' \<mapsto> PInt 42], parent = None\<rparr>], dynamic_environment = [0 \<mapsto> 0]\<rparr>)"
  by (simp add: Parameter_init_def Parameter_get_def Parameter_set_def identity_converter_def
        EnvironmentProxy_setitem_def EnvironmentProxy_getitem_def
        Environment_setitem.simps Environment_getitem.simps store_key_def module_init_def)


section \<open>Statements and scope exit\<close>

lemma expr_stmt_Some:
  "expr_stmt (Some (r, s)) = Some (case r of Inl err \<Rightarrow> Raised err | Inr x \<Rightarrow> Completed, s)"
  by (cases r) (simp_all add: expr_stmt_def)

text \<open>
  The \<open>finally\<close> clause: whenever \<open>create\<close> or \<open>parameterize\<close> returns,
  whatever the block was and however it ended, the head of the thread is the head from
  before the scope was entered.
\<close>

lemma create_restores_head:
  "EnvironmentProxy_create t d body st = Some (out, st') \<Longrightarrow>
   dynamic_environment st' t = dynamic_environment st t"
  by (auto simp: EnvironmentProxy_create_def create_enter_def create_exit_def
           split: option.splits sum.splits prod.splits)

lemma parameterize_restores_head:
  "Parameter_parameterize p v body t st = Some (out, st') \<Longrightarrow>
   dynamic_environment st' t = dynamic_environment st t"
  by (auto simp: Parameter_parameterize_def dest: create_restores_head split: sum.splits)

lemmas run_defs =
  Parameter_parameterize_def Parameter_get_def Parameter_set_def identity_converter_def
  EnvironmentProxy_create_def create_enter_def create_exit_def expr_stmt_def
  EnvironmentProxy_getitem_def EnvironmentProxy_setitem_def EnvironmentProxy_delitem_def
  Environment_getitem.simps Environment_setitem.simps Environment_delitem.simps
  store_key_def remove_key_def

section \<open>States a thread can reach\<close>

lemma wf_chain:
  assumes "\<forall>b<length h. \<forall>q. parent (h ! b) = Some q \<longrightarrow> q < b"
  shows "a < length h \<Longrightarrow> \<exists>c. chain h a = Some c"
proof (induction a rule: less_induct)
  case (less a)
  show ?case
  proof (cases "parent (h ! a)")
    case None
    with less.prems have "chain h a = Some [a]" by (subst chain.simps) simp
    then show ?thesis ..
  next
    case (Some q)
    with assms less.prems have q: "q < a" by simp
    with less.prems have "q < length h" by simp
    from less.IH[OF q this] obtain c where "chain h q = Some c" ..
    with Some less.prems have "chain h a = Some (a # c)" by (subst chain.simps) simp
    then show ?thesis ..
  qed
qed

lemma wf_state_head:
  assumes "wf_state t st"
  shows "\<exists>e c. dynamic_environment st t = Some e \<and> e < length (heap st) \<and> chain (heap st) e = Some c"
proof -
  from assms obtain e where e: "dynamic_environment st t = Some e" "e < length (heap st)"
    by (auto simp: wf_state_def)
  from assms have "\<forall>b<length (heap st). \<forall>q. parent (heap st ! b) = Some q \<longrightarrow> q < b"
    by (simp add: wf_state_def)
  from wf_chain[OF this e(2)] e show ?thesis by blast
qed

lemma wf_module_init: "wf_state t0 (module_init t0)"
  by (simp add: wf_state_def module_init_def)

lemma wf_store: "wf_state t st \<Longrightarrow> wf_state t (st\<lparr>heap := store_key (heap st) b k v\<rparr>)"
  by (simp add: wf_state_def)

lemma wf_remove: "wf_state t st \<Longrightarrow> wf_state t (st\<lparr>heap := remove_key (heap st) b k\<rparr>)"
  by (simp add: wf_state_def)

lemma run_ok_same: "wf_state t st \<Longrightarrow> run_ok t st (Some (out, st))"
  by (simp add: run_ok_def)

lemma run_ok_heap:
  "wf_state t (st\<lparr>heap := h'\<rparr>) \<Longrightarrow> length (heap st) \<le> length h' \<Longrightarrow>
   run_ok t st (Some (out, st\<lparr>heap := h'\<rparr>))"
  by (simp add: run_ok_def)

lemma run_ok_trans:
  "run_ok t st (Some (out, st')) \<Longrightarrow> run_ok t st' r \<Longrightarrow> run_ok t st r"
  by (auto simp: run_ok_def)

lemma getitem_run:
  assumes w: "wf_state t st"
  shows "run_ok t st (expr_stmt (EnvironmentProxy_getitem t k st))"
proof -
  from wf_state_head[OF w] obtain e c where
    e: "dynamic_environment st t = Some e" and c: "chain (heap st) e = Some c" by blast
  have "\<exists>r. EnvironmentProxy_getitem t k st = Some (r, st)"
    using e by (simp add: EnvironmentProxy_getitem_def getitem_chain[OF c])
  then obtain r where "EnvironmentProxy_getitem t k st = Some (r, st)" ..
  then show ?thesis using w by (simp add: expr_stmt_Some run_ok_same)
qed

lemma setitem_wf:
  assumes w: "wf_state t st"
  shows "\<exists>h'. EnvironmentProxy_setitem t k v st = Some (Inr (), st\<lparr>heap := h'\<rparr>)
           \<and> wf_state t (st\<lparr>heap := h'\<rparr>) \<and> length h' = length (heap st)"
proof -
  from wf_state_head[OF w] obtain e c where
    e: "dynamic_environment st t = Some e" and c: "chain (heap st) e = Some c" by blast
  let ?h' = "store_key (heap st) (set_target (heap st) c k) k v"
  have "EnvironmentProxy_setitem t k v st = Some (Inr (), st\<lparr>heap := ?h'\<rparr>)"
    using e c by (rule proxy_setitem_chain)
  moreover have "wf_state t (st\<lparr>heap := ?h'\<rparr>)" using w by (rule wf_store)
  ultimately show ?thesis by (intro exI[of _ ?h']) simp
qed

lemma setitem_run:
  assumes w: "wf_state t st"
  shows "run_ok t st (expr_stmt (EnvironmentProxy_setitem t k v st))"
proof -
  from setitem_wf[OF w, of k v] obtain h' where
    "EnvironmentProxy_setitem t k v st = Some (Inr (), st\<lparr>heap := h'\<rparr>)"
    "wf_state t (st\<lparr>heap := h'\<rparr>)" "length h' = length (heap st)" by blast
  then show ?thesis by (simp add: expr_stmt_Some run_ok_heap)
qed

lemma delitem_run:
  assumes w: "wf_state t st"
  shows "run_ok t st (expr_stmt (EnvironmentProxy_delitem t k st))"
proof -
  from wf_state_head[OF w] obtain e c where
    e: "dynamic_environment st t = Some e" and c: "chain (heap st) e = Some c" by blast
  show ?thesis
  proof (cases "owner (heap st) c k")
    case None
    then have "EnvironmentProxy_delitem t k st = Some (Inl (KeyError k), st)"
      using e by (simp add: EnvironmentProxy_delitem_def delitem_chain[OF c])
    then show ?thesis using w by (simp add: expr_stmt_Some run_ok_same)
  next
    case (Some b)
    then have "EnvironmentProxy_delitem t k st = Some (Inr (), st\<lparr>heap := remove_key (heap st) b k\<rparr>)"
      using e by (simp add: EnvironmentProxy_delitem_def delitem_chain[OF c])
    moreover have "wf_state t (st\<lparr>heap := remove_key (heap st) b k\<rparr>)"
      using w by (rule wf_remove)
    ultimately show ?thesis by (simp add: expr_stmt_Some run_ok_heap)
  qed
qed

lemma wf_enter:
  assumes w: "wf_state t st" and e: "dynamic_environment st t = Some e"
  shows "wf_state t
           (st\<lparr>heap := heap st @ [\<lparr>data = d, parent = Some e\<rparr>],
               dynamic_environment := (dynamic_environment st)(t \<mapsto> length (heap st))\<rparr>)"
proof -
  from w e have e': "e < length (heap st)" by (auto simp: wf_state_def)
  have "\<forall>b<Suc (length (heap st)). \<forall>q.
      parent ((heap st @ [\<lparr>data = d, parent = Some e\<rparr>]) ! b) = Some q \<longrightarrow> q < b"
  proof (intro allI impI)
    fix b q
    assume b: "b < Suc (length (heap st))"
      and q: "parent ((heap st @ [\<lparr>data = d, parent = Some e\<rparr>]) ! b) = Some q"
    show "q < b"
    proof (cases "b = length (heap st)")
      case True
      with q e' show ?thesis by simp
    next
      case False
      with b have "b < length (heap st)" by simp
      with q w show ?thesis by (simp add: wf_state_def nth_append)
    qed
  qed
  then show ?thesis by (simp add: wf_state_def)
qed

lemma create_run:
  assumes w: "wf_state t st"
    and body: "\<And>st1. wf_state t st1 \<Longrightarrow> run_ok t st1 (body st1)"
  shows "run_ok t st (EnvironmentProxy_create t d body st)"
proof -
  from w obtain e where e: "dynamic_environment st t = Some e" "e < length (heap st)"
    by (auto simp: wf_state_def)
  let ?st1 = "st\<lparr>heap := heap st @ [\<lparr>data = d, parent = Some e\<rparr>],
               dynamic_environment := (dynamic_environment st)(t \<mapsto> length (heap st))\<rparr>"
  have enter: "create_enter t d st = Inr (e, ?st1)" using e(1) by (simp add: create_enter_def)
  have "wf_state t ?st1" using w e(1) by (rule wf_enter)
  from body[OF this] obtain out st2 where
    b: "body ?st1 = Some (out, st2)" "wf_state t st2" "length (heap ?st1) \<le> length (heap st2)"
    by (auto simp: run_ok_def)
  have len: "length (heap st) \<le> length (heap st2)" using b(3) by simp
  with e(2) b(2) have "wf_state t (create_exit t e st2)"
    by (simp add: wf_state_def create_exit_def)
  moreover have "EnvironmentProxy_create t d body st = Some (out, create_exit t e st2)"
    by (simp add: EnvironmentProxy_create_def enter b(1))
  moreover have "dynamic_environment (create_exit t e st2) t = dynamic_environment st t"
    using e(1) by (simp add: create_exit_def)
  moreover have "length (heap st) \<le> length (heap (create_exit t e st2))"
    using len by (simp add: create_exit_def)
  ultimately show ?thesis by (simp add: run_ok_def)
qed

lemma parameter_set_run:
  assumes w: "wf_state t st"
  shows "run_ok t st (expr_stmt (Parameter_set p v t st))"
proof (cases "converter p v")
  case (Inl err)
  then show ?thesis using w by (simp add: Parameter_set_def expr_stmt_Some run_ok_same)
next
  case (Inr cv)
  from setitem_wf[OF w, of "ident p" cv] obtain h' where
    "EnvironmentProxy_setitem t (ident p) cv st = Some (Inr (), st\<lparr>heap := h'\<rparr>)"
    "wf_state t (st\<lparr>heap := h'\<rparr>)" "length h' = length (heap st)" by blast
  with Inr show ?thesis by (simp add: Parameter_set_def expr_stmt_Some run_ok_heap)
qed

lemma parameter_call_run:
  assumes w: "wf_state t st"
  shows "run_ok t st (expr_stmt (Parameter_call p args t st))"
proof -
  consider "length args = 0" | "length args = 1" | "length args \<noteq> 0 \<and> length args \<noteq> 1"
    by blast
  then show ?thesis
  proof cases
    case 1
    then show ?thesis using getitem_run[OF w, of "ident p"]
      by (simp add: Parameter_call_def Parameter_get_def)
  next
    case 2
    then show ?thesis using parameter_set_run[OF w, of p "args ! 0"]
      by (simp add: Parameter_call_def)
  next
    case 3
    then show ?thesis using w by (simp add: Parameter_call_def expr_stmt_Some run_ok_same)
  qed
qed

lemma parameterize_run:
  assumes w: "wf_state t st"
    and body: "\<And>st1. wf_state t st1 \<Longrightarrow> run_ok t st1 (body st1)"
  shows "run_ok t st (Parameter_parameterize p v body t st)"
proof (cases "converter p v")
  case (Inl err)
  then show ?thesis using w by (simp add: Parameter_parameterize_def run_ok_same)
next
  case (Inr cv)
  then show ?thesis using create_run[OF w body] by (simp add: Parameter_parameterize_def)
qed

text \<open>
  Every block over the public operations, run by a thread in a well-formed state, has a
  result, in a well-formed state with the head it started from. With \<open>wf_module_init\<close>:
  whatever the importing thread runs, its head has a chain.
\<close>

lemma exec_run_ok:
  "wf_state t st \<longrightarrow> run_ok t st (exec t s st)"
  "wf_state t st \<longrightarrow> run_ok t st (exec_block t ss st)"
proof (induction t s st and t ss st rule: exec_exec_block.induct)
  case (1 t k st)
  show ?case by (simp add: getitem_run)
next
  case (2 t k v st)
  show ?case by (simp add: setitem_run)
next
  case (3 t k st)
  show ?case by (simp add: delitem_run)
next
  case (4 t d body st)
  then show ?case by (simp add: create_run)
next
  case (5 t p st)
  show ?case by (simp add: Parameter_get_def getitem_run)
next
  case (6 t p v st)
  show ?case by (simp add: parameter_set_run)
next
  case (7 t p args st)
  show ?case by (simp add: parameter_call_run)
next
  case (8 t p v body st)
  then show ?case by (simp add: parameterize_run)
next
  case (9 t err st)
  show ?case by (simp add: run_ok_same)
next
  case (10 t v st)
  show ?case by (simp add: run_ok_same)
next
  case (11 t st)
  show ?case by (simp add: run_ok_same)
next
  case (12 t s ss st)
  show ?case
  proof
    assume w: "wf_state t st"
    with 12(1) have "run_ok t st (exec t s st)" by simp
    then obtain out st' where
      r: "exec t s st = Some (out, st')" and s: "run_ok t st (Some (out, st'))"
      by (auto simp: run_ok_def)
    show "run_ok t st (exec_block t (s # ss) st)"
    proof (cases "out = Completed")
      case True
      from s have "wf_state t st'" by (simp add: run_ok_def)
      with 12(2)[OF r refl True] have "run_ok t st' (exec_block t ss st')" by simp
      with s have "run_ok t st (exec_block t ss st')" by (rule run_ok_trans)
      with r True show ?thesis by simp
    next
      case False
      with r have "exec_block t (s # ss) st = Some (out, st')" by (cases out) simp_all
      with s show ?thesis by simp
    qed
  qed
qed

section \<open>Leaving a scope\<close>

text \<open>
  C3, at a block that deletes the parameter's key and then sets the parameter. Thread 0
  has the parameter bound to 43 at its root and runs, inside \<open>parameterize(50)\<close>,
  \<open>del dynamic_environment[p]\<close> and then \<open>p.set(99)\<close>. The block completes and
  the head of the thread is restored to the root. The value is not restored: the
  \<open>del\<close> removed the binding of the scope's own frame, so \<open>set\<close> saw through
  to the root, and \<open>get\<close> gives 99 after the block, not 43. The change to the
  parameter has escaped the block.
\<close>

theorem parameterize_change_escapes:
  "Parameter_get \<lparr>ident = ''k'', converter = identity_converter\<rparr> 0 st_root =
     Some (Inr (PInt 43), st_root)
   \<and> dynamic_environment st_root 0 = Some 0
   \<and> Parameter_parameterize \<lparr>ident = ''k'', converter = identity_converter\<rparr> (PInt 50)
       (exec_block 0 [Del ''k'', PSet \<lparr>ident = ''k'', converter = identity_converter\<rparr> (PInt 99)])
       0 st_root =
     Some (Completed,
           \<lparr>heap = [\<lparr>data = [''k'' \<mapsto> PInt 99], parent = None\<rparr>,
                    \<lparr>data = Map.empty, parent = Some 0\<rparr>],
            dynamic_environment = [0 \<mapsto> 0]\<rparr>)
   \<and> Parameter_get \<lparr>ident = ''k'', converter = identity_converter\<rparr> 0
       \<lparr>heap = [\<lparr>data = [''k'' \<mapsto> PInt 99], parent = None\<rparr>,
                \<lparr>data = Map.empty, parent = Some 0\<rparr>],
        dynamic_environment = [0 \<mapsto> 0]\<rparr> =
     Some (Inr (PInt 99),
           \<lparr>heap = [\<lparr>data = [''k'' \<mapsto> PInt 99], parent = None\<rparr>,
                    \<lparr>data = Map.empty, parent = Some 0\<rparr>],
            dynamic_environment = [0 \<mapsto> 0]\<rparr>)
   \<and> PInt 99 \<noteq> PInt 43"
  by (simp add: run_defs st_root_def)

end
